theory Spec2Isabelle
  imports Main "HOL-Library.Sublist"
begin

section \<open>Python string operations used by the crawler\<close>

text \<open>
  Python \<^verbatim>\<open>str.replace(old, new)\<close>: all non-overlapping occurrences of \<open>old\<close>,
  found from left to right, are replaced. For an empty \<open>old\<close> Python puts \<open>new\<close>
  before every character and at the end.
\<close>

fun replace_ne :: "string \<Rightarrow> string \<Rightarrow> string \<Rightarrow> string" where
  "replace_ne old new [] = []"
| "replace_ne old new (c # cs) =
     (if prefix old (c # cs) then new @ replace_ne old new (drop (length old - 1) cs)
      else c # replace_ne old new cs)"

definition str_replace :: "string \<Rightarrow> string \<Rightarrow> string \<Rightarrow> string" where
  "str_replace old new s =
     (if old = [] then new @ concat (map (\<lambda>c. c # new) s) else replace_ne old new s)"

text \<open>\<^verbatim>\<open>s.endswith(t)\<close> and \<^verbatim>\<open>s.endswith((t1, ..., tn))\<close>.\<close>

definition endswith :: "string \<Rightarrow> string \<Rightarrow> bool" where
  "endswith s t = suffix t s"

definition endswith_any :: "string \<Rightarrow> string list \<Rightarrow> bool" where
  "endswith_any s ts = list_ex (endswith s) ts"

section \<open>crawler.py: url_in_list\<close>

text \<open>
  \<^verbatim>\<open>
  def url_in_list(url, listobj):
      http_version = url.replace('https://', 'http://')
      https_version = url.replace('http://', 'https://')
      return (http_version in listobj) or (https_version in listobj)
  \<close>
\<close>

definition url_in_list :: "string \<Rightarrow> string list \<Rightarrow> bool" where
  "url_in_list url listobj =
     (let http_version = str_replace ''https://'' ''http://'' url;
          https_version = str_replace ''http://'' ''https://'' url
      in http_version \<in> set listobj \<or> https_version \<in> set listobj)"

section \<open>Exceptions\<close>

text \<open>
  The exceptions the modelled code raises, catches or lets pass. In the requests library
  \<^verbatim>\<open>SSLError\<close> is a subclass of \<^verbatim>\<open>ConnectionError\<close>. \<open>SqliteError\<close> is any
  error of the sqlite3 module, \<open>OtherException\<close> any exception not named here.
\<close>

datatype exc =
  MissingSchema | InvalidSchema | SSLError | ConnectionError | HTMLException
  | TypeError | ValueError | KeyError | JSONDecodeError | SqliteError | OverflowError
  | FileNotFoundError | NotADirectoryError | IsADirectoryError | OSError | OtherException

section \<open>crawler.py: CrawlerCache\<close>

text \<open>
  The table \<^verbatim>\<open>sites (domain text, url text, content text, store_time timestamp)\<close>
  is a list of rows in insertion order: the table has no index and no ORDER BY is ever
  used, so a SELECT scans it in rowid order, and \<^verbatim>\<open>fetchall()\<close> returns the matching
  rows oldest first. A column holding SQL NULL (Python \<^verbatim>\<open>None\<close>) is \<open>None\<close>.
  A \<^verbatim>\<open>datetime\<close> is the number of microseconds since \<^verbatim>\<open>datetime.min\<close>
  (0001-01-01 00:00:00), as \<open>int\<close>; every reading of \<^verbatim>\<open>datetime.now()\<close> is an
  argument \<open>now\<close> of the operation that reads it.
\<close>

record site_row =
  row_domain :: "string option"
  row_url :: string
  row_content :: "string option"
  row_store_time :: int

record crawler_cache =
  sites :: "site_row list"
  refresh :: int

text \<open>
  \<^verbatim>\<open>timedelta(days=n)\<close> in microseconds: Python raises OverflowError for more than
  999999999 days in either direction.
\<close>

definition timedelta_days :: "int \<Rightarrow> exc + int" where
  "timedelta_days n =
     (if - 999999999 \<le> n \<and> n \<le> 999999999 then Inr (n * 86400000000) else Inl OverflowError)"

text \<open>
  \<^verbatim>\<open>datetime.max\<close> is 9999-12-31 23:59:59.999999, the last microsecond of day
  3652059; \<^verbatim>\<open>datetime + timedelta\<close> raises OverflowError when the sum leaves the range
  from \<^verbatim>\<open>datetime.min\<close> to \<^verbatim>\<open>datetime.max\<close>.
\<close>

definition datetime_max :: int where
  "datetime_max = 3652059 * 86400000000 - 1"

definition datetime_add :: "int \<Rightarrow> int \<Rightarrow> exc + int" where
  "datetime_add t delta =
     (if 0 \<le> t + delta \<and> t + delta \<le> datetime_max then Inr (t + delta) else Inl OverflowError)"

text \<open>
  \<^verbatim>\<open>WHERE domain=? and url=?\<close>: SQL equality, which a NULL on either side never
  satisfies.
\<close>

definition row_matches :: "string option \<Rightarrow> string \<Rightarrow> site_row \<Rightarrow> bool" where
  "row_matches d u r = (d \<noteq> None \<and> row_domain r = d \<and> row_url r = u)"

text \<open>
  \<^verbatim>\<open>
  def set(self, domain, url, data):
      self.cursor.execute("INSERT INTO sites VALUES (?,?,?,?)", (domain, url, data, datetime.now()))
      self.conn.commit()
  \<close>
\<close>

definition cache_set :: "crawler_cache \<Rightarrow> int \<Rightarrow> string option \<Rightarrow> string \<Rightarrow> string option \<Rightarrow> crawler_cache" where
  "cache_set c now d u data =
     c\<lparr>sites := sites c @ [\<lparr>row_domain = d, row_url = u, row_content = data, row_store_time = now\<rparr>]\<rparr>"

text \<open>
  \<^verbatim>\<open>
  def delete(self, domain, url):
      self.cursor.execute("DELETE FROM sites WHERE domain=? and url=?", (domain, url))
  \<close>
\<close>

definition cache_delete :: "crawler_cache \<Rightarrow> string option \<Rightarrow> string \<Rightarrow> crawler_cache" where
  "cache_delete c d u = c\<lparr>sites := filter (\<lambda>r. \<not> row_matches d u r) (sites c)\<rparr>"

text \<open>
  \<^verbatim>\<open>
  def get(self, domain, url):
      self.cursor.execute("SELECT content, store_time FROM sites WHERE domain=? and url=?", (domain, url))
      row = self.cursor.fetchall()
      if row:
          if row[0][1] + timedelta(days=self.refresh) < datetime.now():
              self.delete(domain, url)
              return
          return row[0][0]
  \<close>
  The result is the raised exception or the returned Python value (\<open>None\<close> for
  \<^verbatim>\<open>None\<close>), and the cache afterwards. The sum is computed before \<^verbatim>\<open>datetime.now()\<close>
  is compared with it, and either step of it can overflow.
\<close>

definition cache_get ::
  "crawler_cache \<Rightarrow> int \<Rightarrow> string option \<Rightarrow> string \<Rightarrow> (exc + string option) \<times> crawler_cache" where
  "cache_get c now d u =
     (case filter (row_matches d u) (sites c) of
        [] \<Rightarrow> (Inr None, c)
      | row0 # _ \<Rightarrow>
          (case timedelta_days (refresh c) of
             Inl e \<Rightarrow> (Inl e, c)
           | Inr delta \<Rightarrow>
               (case datetime_add (row_store_time row0) delta of
                  Inl e \<Rightarrow> (Inl e, c)
                | Inr expiry \<Rightarrow>
                    if expiry < now then (Inr None, cache_delete c d u)
                    else (Inr (row_content row0), c))))"

text \<open>
  \<^verbatim>\<open>
  def get_urls(self, domain):
      self.cursor.execute("SELECT url FROM sites WHERE domain=?", (domain,))
      return [row[0] for row in self.cursor.fetchall()]
  \<close>
\<close>

definition get_urls :: "crawler_cache \<Rightarrow> string option \<Rightarrow> string list" where
  "get_urls c d = map row_url (filter (\<lambda>r. d \<noteq> None \<and> row_domain r = d) (sites c))"

text \<open>A sequence of \<^verbatim>\<open>set(d, u, c1)\<close>, ..., \<^verbatim>\<open>set(d, u, cn)\<close> calls, each with the
  time it reads and the content it stores.\<close>

fun cache_set_all :: "crawler_cache \<Rightarrow> string option \<Rightarrow> string \<Rightarrow> (int \<times> string option) list \<Rightarrow> crawler_cache" where
  "cache_set_all c d u [] = c"
| "cache_set_all c d u ((t, x) # rest) = cache_set_all (cache_set c t d u x) d u rest"

section \<open>More string operations\<close>

text \<open>\<^verbatim>\<open>s.split(sep)\<close> for a one-character separator: never an empty list.\<close>

fun split_char :: "char \<Rightarrow> string \<Rightarrow> string list" where
  "split_char sep [] = [[]]"
| "split_char sep (c # cs) =
     (if c = sep then [] # split_char sep cs
      else (case split_char sep cs of
              [] \<Rightarrow> [[c]]
            | p # ps \<Rightarrow> (c # p) # ps))"

text \<open>
  \<^verbatim>\<open>s.rsplit(sep, 1)\<close> unpacked into two names: the parts before and after the last
  separator; with no separator in \<open>s\<close> the list has one element and the unpacking
  raises ValueError (\<open>None\<close> here).
\<close>

definition rsplit1 :: "char \<Rightarrow> string \<Rightarrow> (string \<times> string) option" where
  "rsplit1 sep s =
     (if sep \<in> set s
      then Some (rev (drop 1 (dropWhile (\<lambda>c. c \<noteq> sep) (rev s))),
                 rev (takeWhile (\<lambda>c. c \<noteq> sep) (rev s)))
      else None)"

text \<open>\<^verbatim>\<open>str(n)\<close> for a counter \<open>n \<ge> 0\<close>: its decimal digits.\<close>

definition digit_char :: "nat \<Rightarrow> char" where
  "digit_char d = ''0123456789'' ! d"

fun str_nat :: "nat \<Rightarrow> string" where
  "str_nat n = (if n < 10 then [digit_char n] else str_nat (n div 10) @ [digit_char (n mod 10)])"

declare str_nat.simps [simp del]

text \<open>\<^verbatim>\<open>os.path.join(a, b)\<close> on a POSIX system, for two components.\<close>

definition os_path_join :: "string \<Rightarrow> string \<Rightarrow> string" where
  "os_path_join a b =
     (if prefix ''/'' b then b
      else if a = [] \<or> suffix ''/'' a then a @ b
      else a @ ''/'' @ b)"

text \<open>
  \<^verbatim>\<open>os.path.dirname(p)\<close> on a POSIX system: the text up to the last slash, without
  its trailing slashes unless it consists of slashes only; empty for a name in the
  current directory.
\<close>

definition dirname :: "string \<Rightarrow> string" where
  "dirname p =
     (let head = rev (dropWhile (\<lambda>c. c \<noteq> CHR ''/'') (rev p))
      in if head \<noteq> [] \<and> \<not> (\<forall>c \<in> set head. c = CHR ''/'')
         then rev (dropWhile (\<lambda>c. c = CHR ''/'') (rev head))
         else head)"

section \<open>crawler.py: write_to_file\<close>

text \<open>
  The files are a map from path to content. The directories do not change while the
  modelled code runs (it never creates one), so they are the parameter \<open>isdir\<close>, which
  is \<^verbatim>\<open>os.path.isdir\<close>. The parameter \<open>oserr\<close> gives the error, if any, with which
  \<^verbatim>\<open>open\<close> refuses a path whatever files exist: ValueError for a null byte in the
  name, OSError for a name longer than the file system allows or a permission that is
  missing. \<^verbatim>\<open>sha1(data).hexdigest()\<close> is the parameter \<open>sha1\<close>: the code compares
  digests, never contents.
  \<^verbatim>\<open>
  def write_to_file(data, file_name):
      hash_new = sha1(data)
      count = 0
      new_name = file_name
      while True:
          if not os.path.exists(new_name):
              with open(new_name, 'wb') as file:
                  file.write(data)
              return
          else:
              with open(new_name, 'rb') as file:
                  hash_file = sha1(file.read())
              if hash_new.hexdigest() == hash_file.hexdigest():
                  return
              new_name, suffix = file_name.rsplit('.', 1)
              new_name = "{}_{}.{}".format(new_name, count, suffix)
              count += 1
  \<close>
  \<^verbatim>\<open>open(new_name, 'wb')\<close> creates the file when its directory exists; it raises
  FileNotFoundError for an empty name or a missing directory and NotADirectoryError
  when a file stands where the directory should be. \<^verbatim>\<open>open(new_name, 'rb')\<close> on a
  directory raises IsADirectoryError. For a path that \<open>oserr\<close> refuses,
  \<^verbatim>\<open>os.path.exists\<close> may answer either way and the \<^verbatim>\<open>open\<close> that follows raises the
  error. The loop has no bound, so it is a partial
  function: \<open>None\<close> is a loop that never returns, \<open>Some (Inl e)\<close> a raised exception
  (the files are then as before), \<open>Some (Inr fs)\<close> the files at the return.
\<close>

type_synonym bytes = string
type_synonym filesystem = "string \<rightharpoonup> bytes"

definition counter_name :: "string \<Rightarrow> string \<Rightarrow> nat \<Rightarrow> string" where
  "counter_name stem sfx n = stem @ ''_'' @ str_nat n @ ''.'' @ sfx"

definition open_wb :: "(string \<Rightarrow> bool) \<Rightarrow> bytes \<Rightarrow> filesystem \<Rightarrow> string \<Rightarrow> exc + filesystem" where
  "open_wb isdir data fs new_name =
     (if new_name = [] then Inl FileNotFoundError
      else if dirname new_name = [] \<or> isdir (dirname new_name) then Inr (fs(new_name \<mapsto> data))
      else if fs (dirname new_name) \<noteq> None then Inl NotADirectoryError
      else Inl FileNotFoundError)"

partial_function (option) write_loop ::
  "(string \<Rightarrow> bool) \<Rightarrow> (string \<Rightarrow> exc option) \<Rightarrow> (bytes \<Rightarrow> 'h) \<Rightarrow> bytes \<Rightarrow> string
     \<Rightarrow> filesystem \<Rightarrow> string \<Rightarrow> nat \<Rightarrow> (exc + filesystem) option" where
  "write_loop isdir oserr sha1 data file_name fs new_name count =
     (case oserr new_name of
        Some e \<Rightarrow> Some (Inl e)
      | None \<Rightarrow>
          (case fs new_name of
             None \<Rightarrow>
               if isdir new_name then Some (Inl IsADirectoryError)
               else Some (open_wb isdir data fs new_name)
           | Some old \<Rightarrow>
               if sha1 data = sha1 old then Some (Inr fs)
               else (case rsplit1 CHR ''.'' file_name of
                       None \<Rightarrow> Some (Inl ValueError)
                     | Some (stem, sfx) \<Rightarrow>
                         write_loop isdir oserr sha1 data file_name fs
                           (counter_name stem sfx count) (count + 1))))"

definition write_to_file ::
  "(string \<Rightarrow> bool) \<Rightarrow> (string \<Rightarrow> exc option) \<Rightarrow> (bytes \<Rightarrow> 'h) \<Rightarrow> bytes \<Rightarrow> string
     \<Rightarrow> filesystem \<Rightarrow> (exc + filesystem) option" where
  "write_to_file isdir oserr sha1 data file_name fs =
     write_loop isdir oserr sha1 data file_name fs file_name 0"

section \<open>The collaborators: HTTP client, HTML parser, URL library, clock, database, directories\<close>

text \<open>
  A \<^verbatim>\<open>requests\<close> response: its status code, its \<^verbatim>\<open>content-type\<close> header (\<open>None\<close>
  when the header is missing, where \<^verbatim>\<open>response.headers['content-type']\<close> raises
  KeyError), its text and its raw content.
\<close>

record response =
  resp_status_code :: int
  resp_content_type :: "string option"
  resp_text :: string
  resp_content :: bytes

datatype fetch_result = Raises exc | Resp response

text \<open>What the crawler asks of a parsed page:
  \<^verbatim>\<open>[a['href'] for a in soup.select('a[href]')]\<close>, in document order.\<close>

record soup =
  soup_a_href :: "string list"

text \<open>
  Everything outside the repository is a field of the world the code runs in:
  \<^item> \<open>sess_get\<close>: \<^verbatim>\<open>self.sess.get(url)\<close>;
  \<^item> \<open>BeautifulSoup\<close>: \<^verbatim>\<open>bs4.BeautifulSoup(markup, "html.parser")\<close>, called with
    \<^verbatim>\<open>None\<close> when \<open>get_html\<close> returned nothing;
  \<^item> \<open>urlparse_netloc\<close>, \<open>urldefrag\<close>, \<open>urljoin\<close>, \<open>urlsplit_path\<close>:
    \<^verbatim>\<open>urlparse(u).netloc\<close>, \<^verbatim>\<open>urldefrag(u)[0]\<close>, \<^verbatim>\<open>urljoin(base, u)\<close>,
    \<^verbatim>\<open>urlsplit(u)[2]\<close>, taken as total;
  \<^item> \<open>datetime_now k\<close>: the time read by the \<open>k\<close>-th cache operation of a run;
  \<^item> \<open>sqlite_fails k\<close>: whether the \<open>k\<close>-th cache operation raises an sqlite3 error;
  \<^item> \<open>os_path_isdir\<close>: \<^verbatim>\<open>os.path.isdir(p)\<close>, the directories of the file system;
  \<^item> \<open>os_open_error\<close>: the error with which \<^verbatim>\<open>open\<close> refuses a path, if any.
\<close>

record world =
  sess_get :: "string \<Rightarrow> fetch_result"
  BeautifulSoup :: "string option \<Rightarrow> exc + soup"
  urlparse_netloc :: "string \<Rightarrow> string"
  urldefrag :: "string \<Rightarrow> string"
  urljoin :: "string \<Rightarrow> string \<Rightarrow> string"
  urlsplit_path :: "string \<Rightarrow> string"
  datetime_now :: "nat \<Rightarrow> int"
  sqlite_fails :: "nat \<Rightarrow> bool"
  os_path_isdir :: "string \<Rightarrow> bool"
  os_open_error :: "string \<Rightarrow> exc option"

section \<open>crawler.py: ImageCrawler.download_image\<close>

definition suffix_list :: "string list" where
  "suffix_list = [''.jpg'', ''.gif'', ''.png'', ''.tif'', ''.svg'', ''.ico'']"

text \<open>
  \<^verbatim>\<open>
  def download_image(self, img_url):
      file_name = os.path.join(self.path_images, urlsplit(img_url)[2].split('/')[-1])
      try:
          i = self.sess.get(img_url)
      except (requests.exceptions.MissingSchema, requests.exceptions.InvalidSchema) as exp:
          return
      except requests.exceptions.SSLError as exp:
          return
      if file_name.endswith(self.suffix_list) and i.status_code == requests.codes.ok:
          write_to_file(i.content, file_name)
  \<close>
  The result is the exception that leaves the method, if any, and the file system
  afterwards; an exception leaves the file system as it was.
\<close>

definition image_file_name :: "world \<Rightarrow> string \<Rightarrow> string \<Rightarrow> string" where
  "image_file_name w path_images img_url =
     os_path_join path_images (last (split_char CHR ''/'' (urlsplit_path w img_url)))"

definition download_image ::
  "world \<Rightarrow> (bytes \<Rightarrow> 'h) \<Rightarrow> string \<Rightarrow> string \<Rightarrow> filesystem \<Rightarrow> (exc option \<times> filesystem) option" where
  "download_image w sha1 path_images img_url fs =
     (let file_name = image_file_name w path_images img_url
      in case sess_get w img_url of
           Raises e \<Rightarrow>
             if e = MissingSchema \<or> e = InvalidSchema then Some (None, fs)
             else if e = SSLError then Some (None, fs)
             else Some (Some e, fs)
         | Resp i \<Rightarrow>
             if endswith_any file_name suffix_list \<and> resp_status_code i = 200
             then (case write_to_file (os_path_isdir w) (os_open_error w) sha1 (resp_content i) file_name fs of
                     None \<Rightarrow> None
                   | Some (Inl e) \<Rightarrow> Some (Some e, fs)
                   | Some (Inr fs') \<Rightarrow> Some (None, fs'))
             else Some (None, fs))"

section \<open>crawler.py: same_domain\<close>

text \<open>\<^verbatim>\<open>str.lower()\<close> on ASCII letters; other characters are left as they are.\<close>

definition lower_char :: "char \<Rightarrow> char" where
  "lower_char c = (let n = (of_char c :: nat) in if 65 \<le> n \<and> n \<le> 90 then char_of (n + 32) else c)"

definition lower :: "string \<Rightarrow> string" where
  "lower s = map lower_char s"

text \<open>
  \<^verbatim>\<open>
  def same_domain(netloc1, netloc2):
      domain1 = netloc1.lower()
      if '.' in domain1:
          domain1 = domain1.split('.')[-2] + '.' + domain1.split('.')[-1]
      domain2 = netloc2.lower()
      if '.' in domain2:
          domain2 = domain2.split('.')[-2] + '.' + domain2.split('.')[-1]
      return domain1 == domain2
  \<close>
  With a dot in the string the split has at least two parts, so both indices exist.
\<close>

definition last_two_labels :: "string \<Rightarrow> string" where
  "last_two_labels d =
     (if CHR ''.'' \<in> set d
      then (let parts = split_char CHR ''.'' d
            in parts ! (length parts - 2) @ ''.'' @ last parts)
      else d)"

definition same_domain :: "string \<Rightarrow> string \<Rightarrow> bool" where
  "same_domain netloc1 netloc2 =
     (let domain1 = last_two_labels (lower netloc1);
          domain2 = last_two_labels (lower netloc2)
      in domain1 = domain2)"

section \<open>crawler.py: Crawler\<close>

text \<open>
  The attributes of a \<^verbatim>\<open>Crawler\<close> object. \<open>cache_ops\<close> counts the cache operations
  made so far; it indexes the clock and the database failures of the world.
  \<^verbatim>\<open>no_cache\<close> is used by the code as a truth value only.
\<close>

record crawler =
  max_pages :: int
  cache :: "crawler_cache option"
  single_domain :: bool
  domain :: "string option"
  no_cache :: bool
  cache_ops :: nat

text \<open>
  \<^verbatim>\<open>
  def is_cacheable(self):
      return self.cache and not self.no_cache
  \<close>
\<close>

definition is_cacheable :: "crawler \<Rightarrow> bool" where
  "is_cacheable self = (cache self \<noteq> None \<and> \<not> no_cache self)"

text \<open>
  \<^verbatim>\<open>
  def get_html(self, url):
      try:
          response = self.sess.get(url)
      except (requests.exceptions.MissingSchema, requests.exceptions.InvalidSchema) as exp:
          raise HTMLException(exp)
      except requests.exceptions.SSLError as exp:
          logging.error("Problem with SSL certificate: %s", exp)
          return
      if not response.headers['content-type'].startswith('text/html'):
          raise HTMLException(msg)
      return response.text
  \<close>
  \<open>Inl e\<close> is a raised exception, \<open>Inr None\<close> the bare \<^verbatim>\<open>return\<close>.
\<close>

definition get_html :: "world \<Rightarrow> string \<Rightarrow> exc + string option" where
  "get_html w url =
     (case sess_get w url of
        Raises e \<Rightarrow>
          if e = MissingSchema \<or> e = InvalidSchema then Inl HTMLException
          else if e = SSLError then Inr None
          else Inl e
      | Resp response \<Rightarrow>
          (case resp_content_type response of
             None \<Rightarrow> Inl KeyError
           | Some ct \<Rightarrow>
               if \<not> prefix ''text/html'' ct then Inl HTMLException
               else Inr (Some (resp_text response))))"

text \<open>
  \<^verbatim>\<open>
  def get(self, url):
      if self.is_cacheable():
          response = self.cache.get(self.domain, url)
          if not response:
              response = self.get_html(url)
              self.cache.set(self.domain, url, response)
              soup = bs4.BeautifulSoup(response, "html.parser")
          else:
              soup = bs4.BeautifulSoup(response, "html.parser")
      else:
          response = self.get_html(url)
          soup = bs4.BeautifulSoup(response, "html.parser")
      return soup
  \<close>
  \<^verbatim>\<open>not response\<close> holds for \<^verbatim>\<open>None\<close> and for the empty string. The object is returned
  with the result, since the cache changes also when an exception is raised later.
\<close>

definition get_uncached :: "world \<Rightarrow> crawler \<Rightarrow> string \<Rightarrow> (exc + soup) \<times> crawler" where
  "get_uncached w self url =
     (case get_html w url of
        Inl e \<Rightarrow> (Inl e, self)
      | Inr response \<Rightarrow> (BeautifulSoup w response, self))"

definition get_cached :: "world \<Rightarrow> crawler \<Rightarrow> crawler_cache \<Rightarrow> string \<Rightarrow> (exc + soup) \<times> crawler" where
  "get_cached w self c url =
     (let k = cache_ops self
      in if sqlite_fails w k then (Inl SqliteError, self\<lparr>cache_ops := k + 1\<rparr>)
         else
           (case cache_get c (datetime_now w k) (domain self) url of
              (Inl e, c1) \<Rightarrow> (Inl e, self\<lparr>cache := Some c1, cache_ops := k + 1\<rparr>)
            | (Inr response, c1) \<Rightarrow>
                (let self1 = self\<lparr>cache := Some c1, cache_ops := k + 1\<rparr>
                 in if response = None \<or> response = Some []
                    then (case get_html w url of
                            Inl e \<Rightarrow> (Inl e, self1)
                          | Inr response' \<Rightarrow>
                              if sqlite_fails w (k + 1)
                              then (Inl SqliteError, self1\<lparr>cache_ops := k + 2\<rparr>)
                              else (BeautifulSoup w response',
                                    self1\<lparr>cache := Some (cache_set c1 (datetime_now w (k + 1)) (domain self) url response'),
                                          cache_ops := k + 2\<rparr>))
                    else (BeautifulSoup w response, self1))))"

definition crawler_get :: "world \<Rightarrow> crawler \<Rightarrow> string \<Rightarrow> (exc + soup) \<times> crawler" where
  "crawler_get w self url =
     (case cache self of
        Some c \<Rightarrow> if is_cacheable self then get_cached w self c url else get_uncached w self url
      | None \<Rightarrow> get_uncached w self url)"

text \<open>
  \<^verbatim>\<open>
  def get_links(self, url, soup):
      links = [a['href'] for a in soup.select('a[href]')]
      links = [urldefrag(link)[0] for link in links]
      links = [link for link in links if link]
      links = [link if bool(urlparse(link).netloc) else urljoin(url, link) for link in links]
      if self.domain:
          links = [link for link in links if same_domain(urlparse(link).netloc, self.domain)]
      return links
  \<close>
\<close>

definition get_links :: "world \<Rightarrow> crawler \<Rightarrow> string \<Rightarrow> soup \<Rightarrow> string list" where
  "get_links w self url sp =
     (let links = soup_a_href sp;
          links = map (urldefrag w) links;
          links = filter (\<lambda>link. link \<noteq> []) links;
          links = map (\<lambda>link. if urlparse_netloc w link \<noteq> [] then link else urljoin w url link) links
      in case domain self of
           None \<Rightarrow> links
         | Some d \<Rightarrow>
             if d \<noteq> [] then filter (\<lambda>link. same_domain (urlparse_netloc w link) d) links
             else links)"

text \<open>
  \<^verbatim>\<open>
  for link in links:
      if not url_in_list(link, crawled) and not url_in_list(link, page_queue):
          page_queue.append(link)
  \<close>
\<close>

fun enqueue_links :: "string list \<Rightarrow> string list \<Rightarrow> string list \<Rightarrow> string list" where
  "enqueue_links crawled_urls queue [] = queue"
| "enqueue_links crawled_urls queue (link # links) =
     enqueue_links crawled_urls
       (if \<not> url_in_list link crawled_urls \<and> \<not> url_in_list link queue then queue @ [link] else queue)
       links"

text \<open>The local variables of \<^verbatim>\<open>crawl\<close>, with the object.\<close>

record crawl_state =
  pages :: int
  failed :: int
  crawled :: "string list"
  page_queue :: "string list"
  st_self :: crawler

text \<open>
  One pass through the body of the \<^verbatim>\<open>while page_queue:\<close> loop, after
  \<^verbatim>\<open>url = page_queue.popleft()\<close>:
  \<^verbatim>\<open>
  try:
      soup = self.get(url)
  except HTMLException:
      failed += 1
      continue
  crawled.append(url)
  pages += 1
  self.page_handler(url, soup)
  if pages >= self.max_pages:
      break
  links = self.get_links(url, soup)
  for link in links: ...
  \<close>
  \<^verbatim>\<open>Crawler.page_handler\<close> only logs. An exception other than HTMLException leaves the
  loop and the function.
\<close>

datatype iteration = Continue crawl_state | Break crawl_state | Propagate exc crawl_state

definition crawl_iteration :: "world \<Rightarrow> crawl_state \<Rightarrow> string \<Rightarrow> iteration" where
  "crawl_iteration w st url =
     (case crawler_get w (st_self st) url of
        (Inl e, self') \<Rightarrow>
          if e = HTMLException then Continue (st\<lparr>failed := failed st + 1, st_self := self'\<rparr>)
          else Propagate e (st\<lparr>st_self := self'\<rparr>)
      | (Inr sp, self') \<Rightarrow>
          (let st1 = st\<lparr>pages := pages st + 1, crawled := crawled st @ [url], st_self := self'\<rparr>
           in if pages st1 \<ge> max_pages self' then Break st1
              else Continue (st1\<lparr>page_queue :=
                     enqueue_links (crawled st1) (page_queue st1) (get_links w self' url sp)\<rparr>)))"

text \<open>
  The loop \<^verbatim>\<open>while page_queue:\<close>. It returns the local variables at the end of the
  loop and the exception that left it, if any.
\<close>

function crawl_loop :: "world \<Rightarrow> crawl_state \<Rightarrow> crawl_state \<times> exc option" where
  "crawl_loop w st =
     (case page_queue st of
        [] \<Rightarrow> (st, None)
      | url # rest \<Rightarrow>
          (case crawl_iteration w (st\<lparr>page_queue := rest\<rparr>) url of
             Continue st' \<Rightarrow> crawl_loop w st'
           | Break st' \<Rightarrow> (st', None)
           | Propagate e st' \<Rightarrow> (st', Some e)))"
  by pat_completeness auto
termination
proof (relation "measures [\<lambda>(w, st). nat (max_pages (st_self st) - pages st),
                           \<lambda>(w, st). length (page_queue st)]", goal_cases)
  case 1
  show ?case by simp
next
  case (2 w st url rest st')
  have keep: "max_pages (snd (crawler_get w self u)) = max_pages self" for self u
    by (auto simp: crawler_get_def get_cached_def get_uncached_def Let_def
             split: option.splits sum.splits prod.splits)
  from 2(2) have
    "max_pages (st_self st') = max_pages (st_self st) \<and>
     ((pages st' = pages st \<and> page_queue st' = rest) \<or>
      (pages st' = pages st + 1 \<and> pages st' < max_pages (st_self st)))"
    using keep[of "st_self st" url]
    by (auto simp: crawl_iteration_def Let_def split: prod.splits sum.splits if_splits)
  with 2(1) show ?case by auto
qed

declare crawl_loop.simps [simp del]

text \<open>
  The body of \<^verbatim>\<open>crawl\<close>, without its decorator:
  \<^verbatim>\<open>
  pages = 0
  failed = 0
  crawled = []
  page_queue = collections.deque()
  page_queue.append(start_page)
  self.no_cache = no_cache
  self.domain = urlparse(start_page).netloc if self.single_domain else None
  while page_queue: ...
  \<close>
\<close>

definition crawl_body :: "world \<Rightarrow> crawler \<Rightarrow> string \<Rightarrow> bool \<Rightarrow> crawl_state \<times> exc option" where
  "crawl_body w self start_page no_cache_arg =
     crawl_loop w
       \<lparr>pages = 0, failed = 0, crawled = [], page_queue = [start_page],
        st_self = self\<lparr>no_cache := no_cache_arg,
                        domain := (if single_domain self then Some (urlparse_netloc w start_page) else None)\<rparr>\<rparr>"

section \<open>basic_functions.py: safe_func\<close>

text \<open>
  A call either returns a value or raises.
  \<^verbatim>\<open>
  def safe_func(func):
      def wrapped_func(*args, **kwargs):
          try:
              return func(*args, **kwargs)
          except:
              logging.debug("func={}, args={}, kwargs={}.".format(func, args, kwargs), exc_info=True)
              return None
      return wrapped_func
  \<close>
  The result of the wrapped call comes with the records it logs: the level and the
  exception.
\<close>

datatype 'a outcome = Returned 'a | Raised exc

datatype log_level = DEBUG | INFO | WARNING | ERROR

definition safe_func :: "'a option outcome \<Rightarrow> 'a option outcome \<times> (log_level \<times> exc) list" where
  "safe_func r =
     (case r of
        Returned v \<Rightarrow> (Returned v, [])
      | Raised e \<Rightarrow> (Returned None, [(DEBUG, e)]))"

text \<open>
  \<^verbatim>\<open>@safe_func def crawl(self, start_page, no_cache=False)\<close>: the body has no
  \<^verbatim>\<open>return\<close> statement, so it returns \<^verbatim>\<open>None\<close> when no exception leaves it.
\<close>

definition crawl :: "world \<Rightarrow> crawler \<Rightarrow> string \<Rightarrow> bool \<Rightarrow> unit option outcome \<times> (log_level \<times> exc) list" where
  "crawl w self start_page no_cache_arg =
     safe_func (case crawl_body w self start_page no_cache_arg of
                  (st, None) \<Rightarrow> Returned None
                | (st, Some e) \<Rightarrow> Raised e)"

section \<open>A small site\<close>

text \<open>
  A concrete world to run the crawler in. Its URL functions handle plain absolute
  \<^verbatim>\<open>scheme://host/path\<close> URLs; the text of a page is the list of its link targets,
  separated by spaces; asked to parse \<^verbatim>\<open>None\<close>, the parser raises TypeError as bs4
  does, or, when \<open>lenient\<close>, returns an empty document.
\<close>

fun after_slashes :: "string \<Rightarrow> string option" where
  "after_slashes (a # b # cs) =
     (if a = CHR ''/'' \<and> b = CHR ''/'' then Some cs else after_slashes (b # cs))"
| "after_slashes _ = None"

definition site_netloc :: "string \<Rightarrow> string" where
  "site_netloc u =
     (case after_slashes u of
        None \<Rightarrow> []
      | Some r \<Rightarrow> takeWhile (\<lambda>c. c \<noteq> CHR ''/'' \<and> c \<noteq> CHR ''?'' \<and> c \<noteq> CHR ''#'') r)"

definition site_path :: "string \<Rightarrow> string" where
  "site_path u =
     takeWhile (\<lambda>c. c \<noteq> CHR ''?'' \<and> c \<noteq> CHR ''#'')
       (case after_slashes u of
          None \<Rightarrow> u
        | Some r \<Rightarrow> dropWhile (\<lambda>c. c \<noteq> CHR ''/'' \<and> c \<noteq> CHR ''?'' \<and> c \<noteq> CHR ''#'') r)"

definition site_urldefrag :: "string \<Rightarrow> string" where
  "site_urldefrag u = takeWhile (\<lambda>c. c \<noteq> CHR ''#'') u"

definition site_urljoin :: "string \<Rightarrow> string \<Rightarrow> string" where
  "site_urljoin base u = rev (dropWhile (\<lambda>c. c \<noteq> CHR ''/'') (rev base)) @ u"

definition site_parse :: "bool \<Rightarrow> string option \<Rightarrow> exc + soup" where
  "site_parse lenient markup =
     (case markup of
        None \<Rightarrow> if lenient then Inr \<lparr>soup_a_href = []\<rparr> else Inl TypeError
      | Some t \<Rightarrow> Inr \<lparr>soup_a_href = filter (\<lambda>l. l \<noteq> []) (split_char CHR '' '' t)\<rparr>)"

definition html_page :: "string \<Rightarrow> fetch_result" where
  "html_page t =
     Resp \<lparr>resp_status_code = 200, resp_content_type = Some ''text/html; charset=utf-8'',
           resp_text = t, resp_content = t\<rparr>"

text \<open>
  The start page links to pages b and c, page b links to page d; \<open>fetch_b\<close> is what
  fetching page b gives.
\<close>

definition site_world :: "fetch_result \<Rightarrow> bool \<Rightarrow> world" where
  "site_world fetch_b lenient =
     \<lparr>sess_get = (\<lambda>u.
        if u = ''http://site.test/'' then html_page ''http://site.test/b http://site.test/c''
        else if u = ''http://site.test/b'' then fetch_b
        else if u = ''http://site.test/c'' then html_page []
        else if u = ''http://site.test/d'' then html_page []
        else Raises ConnectionError),
      BeautifulSoup = site_parse lenient,
      urlparse_netloc = site_netloc,
      urldefrag = site_urldefrag,
      urljoin = site_urljoin,
      urlsplit_path = site_path,
      datetime_now = (\<lambda>k. int k),
      sqlite_fails = (\<lambda>k. False),
      os_path_isdir = (\<lambda>p. p = ''./images''),
      os_open_error = (\<lambda>p. None)\<rparr>"

definition site_crawler :: "int \<Rightarrow> crawler" where
  "site_crawler n =
     \<lparr>max_pages = n, cache = None, single_domain = True, domain = None, no_cache = False,
      cache_ops = 0\<rparr>"

text \<open>
  A world of image assets: the same picture under two names and on two hosts, a
  missing picture and a text file. Its one directory is \<^verbatim>\<open>./images\<close>.
\<close>

definition image_response :: "int \<Rightarrow> bytes \<Rightarrow> fetch_result" where
  "image_response code payload =
     Resp \<lparr>resp_status_code = code, resp_content_type = Some ''image/png'',
           resp_text = [], resp_content = payload\<rparr>"

definition image_world :: world where
  "image_world =
     \<lparr>sess_get = (\<lambda>u.
        if u = ''http://site.test/a.png'' then image_response 200 ''PNG-1''
        else if u = ''http://site.test/b.png'' then image_response 200 ''PNG-1''
        else if u = ''http://cdn.test/img/a.png'' then image_response 200 ''PNG-1''
        else if u = ''http://site.test/gone.png'' then image_response 404 ''not found''
        else if u = ''http://site.test/readme.txt'' then image_response 200 ''text''
        else Raises ConnectionError),
      BeautifulSoup = site_parse False,
      urlparse_netloc = site_netloc,
      urldefrag = site_urldefrag,
      urljoin = site_urljoin,
      urlsplit_path = site_path,
      datetime_now = (\<lambda>k. int k),
      sqlite_fails = (\<lambda>k. False),
      os_path_isdir = (\<lambda>p. p = ''./images''),
      os_open_error = (\<lambda>p. None)\<rparr>"

section \<open>shopify_crawler.py\<close>
































section \<open>Properties of url_in_list\<close>

lemma url_in_list_Nil: "\<not> url_in_list u []"
  by (simp add: url_in_list_def)

text \<open>
  Claim C5: for every URL \<open>u\<close> and collection \<open>C\<close>, if \<open>C\<close> holds a URL equal to
  \<open>u\<close> except that its scheme is http where \<open>u\<close> has https (or the reverse), then
  \<open>url_in_list u C\<close> is true. The code replaces every occurrence of the scheme text, not
  only the prefix, so a URL that carries a second \<^verbatim>\<open>https://\<close> inside (a redirect
  target in its query) is not found: the list below holds the http variant of the URL
  asked for, and the test answers false.
\<close>

theorem url_in_list_misses_scheme_variant:
  "url_in_list ''https://a.com/?r=https://b.com'' [''http://a.com/?r=https://b.com''] = False"
  by (simp add: url_in_list_def str_replace_def)

section \<open>Properties of CrawlerCache\<close>

lemma filter_cache_set_all:
  "filter (row_matches d u) (sites (cache_set_all c d u xs)) =
   filter (row_matches d u) (sites c) @
     (if d = None then []
      else map (\<lambda>(t, x). \<lparr>row_domain = d, row_url = u, row_content = x, row_store_time = t\<rparr>) xs)"
  by (induction c d u xs rule: cache_set_all.induct) (auto simp: cache_set_def row_matches_def)

lemma refresh_cache_set_all: "refresh (cache_set_all c d u xs) = refresh c"
  by (induction c d u xs rule: cache_set_all.induct) (auto simp: cache_set_def)

text \<open>
  Claim C1, as stated: after \<open>set(d, u, c1)\<close>, ..., \<open>set(d, u, cn)\<close> a \<open>get(d, u)\<close>
  returns \<open>cn\<close>, the most recently stored content. It does not: after two stores, a
  microsecond apart on a day in 2024, into an empty cache with the default refresh of 7
  days, a read one microsecond later returns the content stored first, although both
  rows are within the TTL.
\<close>

theorem cache_get_most_recent_counterexample:
  "fst (cache_get (cache_set_all \<lparr>sites = [], refresh = 7\<rparr> (Some ''d'') ''u''
                     [(63840000000000000, Some ''c1''), (63840000000000001, Some ''c2'')])
          63840000000000002 (Some ''d'') ''u'') = Inr (Some ''c1'')
   \<and> fst (cache_get (cache_set_all \<lparr>sites = [], refresh = 7\<rparr> (Some ''d'') ''u''
                     [(63840000000000000, Some ''c1''), (63840000000000001, Some ''c2'')])
          63840000000000002 (Some ''d'') ''u'') \<noteq> Inr (Some ''c2'')"
  by (simp add: cache_get_def cache_set_def row_matches_def timedelta_days_def datetime_add_def
        datetime_max_def)

text \<open>
  Claim C1, amended: for every url \<open>u\<close> and every domain \<open>d\<close> that is a string, after
  \<open>set(d, u, c1)\<close>, ..., \<open>set(d, u, cn)\<close> on a cache that held no row for \<open>(d, u)\<close>, a
  \<open>get(d, u)\<close> returns \<open>c1\<close>, the content of the row inserted first (the first matching
  row in table order), provided that row is within the TTL and its expiry time can be
  computed: the refresh is at most 999999999 days in either direction and the store
  time plus the refresh is a \<^verbatim>\<open>datetime\<close> (otherwise \<open>get\<close> raises OverflowError). The
  store times of the later rows are not looked at. With the domain \<^verbatim>\<open>None\<close>, which a
  crawler with \<^verbatim>\<open>single_domain=False\<close> passes, no row matches and \<open>get\<close> returns
  \<^verbatim>\<open>None\<close> after any stores.
\<close>

theorem cache_get_returns_first_inserted:
  assumes "\<forall>r \<in> set (sites c). \<not> row_matches (Some d) u r"
    and "timedelta_days (refresh c) = Inr delta"
    and "datetime_add t1 delta = Inr expiry"
    and "\<not> (expiry < now)"
  shows "fst (cache_get (cache_set_all c (Some d) u ((t1, c1) # rest)) now (Some d) u) = Inr c1
       \<and> cache_get (cache_set_all c None u ((t1, c1) # rest)) now None u
           = (Inr None, cache_set_all c None u ((t1, c1) # rest))"
proof
  have "filter (row_matches (Some d) u) (sites c) = []"
    using assms(1) by (simp add: filter_empty_conv)
  then show "fst (cache_get (cache_set_all c (Some d) u ((t1, c1) # rest)) now (Some d) u) = Inr c1"
    using assms(2,3,4)
    by (simp add: cache_get_def filter_cache_set_all refresh_cache_set_all del: cache_set_all.simps)
next
  have "filter (row_matches None u) xs = []" for xs
    by (simp add: row_matches_def)
  then show "cache_get (cache_set_all c None u ((t1, c1) # rest)) now None u
           = (Inr None, cache_set_all c None u ((t1, c1) # rest))"
    by (simp add: cache_get_def del: cache_set_all.simps)
qed

text \<open>
  Witness for the amended claim C1: three stores into a cache that holds a row of
  another url, read within the TTL; the times are microseconds of a day in 2024.
\<close>

theorem cache_get_returns_first_inserted_witness:
  "fst (cache_get
         (cache_set_all
            \<lparr>sites = [\<lparr>row_domain = Some ''d'', row_url = ''other'', row_content = Some ''x'',
                       row_store_time = 63840000000000000\<rparr>], refresh = 7\<rparr>
            (Some ''d'') ''u''
            [(63840000000000001, Some ''c1''), (63840000000000002, Some ''c2''),
             (63840000000000003, Some ''c3'')])
         63840000000000004 (Some ''d'') ''u'') = Inr (Some ''c1'')
   \<and> cache_get
         (cache_set_all
            \<lparr>sites = [\<lparr>row_domain = Some ''d'', row_url = ''other'', row_content = Some ''x'',
                       row_store_time = 63840000000000000\<rparr>], refresh = 7\<rparr>
            None ''u''
            [(63840000000000001, Some ''c1''), (63840000000000002, Some ''c2''),
             (63840000000000003, Some ''c3'')])
         63840000000000004 None ''u''
       = (Inr None,
          cache_set_all
            \<lparr>sites = [\<lparr>row_domain = Some ''d'', row_url = ''other'', row_content = Some ''x'',
                       row_store_time = 63840000000000000\<rparr>], refresh = 7\<rparr>
            None ''u''
            [(63840000000000001, Some ''c1''), (63840000000000002, Some ''c2''),
             (63840000000000003, Some ''c3'')])"
proof -
  let ?c = "\<lparr>sites = [\<lparr>row_domain = Some ''d'', row_url = ''other'', row_content = Some ''x'',
                       row_store_time = 63840000000000000\<rparr>], refresh = 7\<rparr>"
  have h1: "\<forall>r \<in> set (sites ?c). \<not> row_matches (Some ''d'') ''u'' r"
    by (simp add: row_matches_def)
  have h2: "timedelta_days (refresh ?c) = Inr 604800000000"
    by (simp add: timedelta_days_def)
  have h3: "datetime_add 63840000000000001 604800000000 = Inr 63840604800000001"
    by (simp add: datetime_add_def datetime_max_def)
  have h4: "\<not> ((63840604800000001::int) < 63840000000000004)"
    by simp
  show ?thesis
    by (rule cache_get_returns_first_inserted[OF h1 h2 h3 h4])
qed

section \<open>Properties of the crawl loop\<close>

lemma crawler_get_max_pages: "max_pages (snd (crawler_get w self u)) = max_pages self"
  by (auto simp: crawler_get_def get_cached_def get_uncached_def Let_def
           split: option.splits sum.splits prod.splits)

lemma crawl_iteration_got:
  assumes "crawler_get w (st_self st) u = (Inr sp, self')"
  shows "crawl_iteration w st u =
     (if pages st + 1 \<ge> max_pages (st_self st)
      then Break (st\<lparr>pages := pages st + 1, crawled := crawled st @ [u], st_self := self'\<rparr>)
      else Continue (st\<lparr>pages := pages st + 1, crawled := crawled st @ [u],
             page_queue := enqueue_links (crawled st @ [u]) (page_queue st) (get_links w self' u sp),
             st_self := self'\<rparr>))"
proof -
  have "max_pages self' = max_pages (st_self st)"
    using crawler_get_max_pages[of w "st_self st" u] assms by simp
  with assms show ?thesis by (simp add: crawl_iteration_def Let_def)
qed

text \<open>
  Claim C4: a crawl with page budget 3 from a start page \<open>A\<close> that links to \<open>B\<close> then
  \<open>C\<close>, with \<open>B\<close> linking to \<open>D\<close> and every fetch succeeding, visits \<open>A\<close>, \<open>B\<close>,
  \<open>C\<close> in this order (links join the FIFO frontier in document order) and never visits
  \<open>D\<close>: the budget is used up at three pages. The pages are different resources: no
  URL is a scheme variant of an earlier one. \<open>self_start\<close> is the object after
  \<^verbatim>\<open>crawl\<close> has set its \<^verbatim>\<open>no_cache\<close> and \<^verbatim>\<open>domain\<close>; \<open>self_a\<close>, \<open>self_b\<close> and
  \<open>self_c\<close> are the object after each \<^verbatim>\<open>self.get\<close>, whose cache may have changed.
\<close>

theorem crawl_budget_three_breadth_first:
  assumes budget: "max_pages self = 3"
    and self_start: "self_start = self\<lparr>no_cache := nc,
                  domain := (if single_domain self then Some (urlparse_netloc w A) else None)\<rparr>"
    and getA: "crawler_get w self_start A = (Inr sA, self_a)" and linksA: "get_links w self_a A sA = [B, C]"
    and getB: "crawler_get w self_a B = (Inr sB, self_b)" and linksB: "get_links w self_b B sB = [D]"
    and getC: "crawler_get w self_b C = (Inr sC, self_c)"
    and different: "\<not> url_in_list B [A]" "\<not> url_in_list C [A]" "\<not> url_in_list C [B]"
      "D \<notin> {A, B, C}"
  shows "crawled (fst (crawl_body w self A nc)) = [A, B, C]
       \<and> pages (fst (crawl_body w self A nc)) = 3
       \<and> failed (fst (crawl_body w self A nc)) = 0
       \<and> snd (crawl_body w self A nc) = None
       \<and> D \<notin> set (crawled (fst (crawl_body w self A nc)))"
proof -
  have m0: "max_pages self_start = 3" using budget self_start by simp
  have m1: "max_pages self_a = 3" using crawler_get_max_pages[of w self_start A] getA m0 by simp
  have m2: "max_pages self_b = 3" using crawler_get_max_pages[of w self_a B] getB m1 by simp
  define st0 where "st0 = \<lparr>pages = 0, failed = 0, crawled = [], page_queue = [A], st_self = self_start\<rparr>"
  define st1 where "st1 = \<lparr>pages = 1, failed = 0, crawled = [A], page_queue = [B, C], st_self = self_a\<rparr>"
  have "\<exists>q. enqueue_links [A, B] [C] [D] = C # q" by simp
  then obtain q where q: "enqueue_links [A, B] [C] [D] = C # q" by blast
  define st2 where "st2 = \<lparr>pages = 2, failed = 0, crawled = [A, B], page_queue = C # q, st_self = self_b\<rparr>"
  define st3 where "st3 = \<lparr>pages = 3, failed = 0, crawled = [A, B, C], page_queue = q, st_self = self_c\<rparr>"
  have i1: "crawl_iteration w (st0\<lparr>page_queue := []\<rparr>) A = Continue st1"
    using crawl_iteration_got[of w "st0\<lparr>page_queue := []\<rparr>" A sA self_a] m0 getA linksA different
    by (simp add: st0_def st1_def url_in_list_Nil)
  have i2: "crawl_iteration w (st1\<lparr>page_queue := [C]\<rparr>) B = Continue st2"
    using crawl_iteration_got[of w "st1\<lparr>page_queue := [C]\<rparr>" B sB self_b] m1 getB linksB q
    by (simp add: st1_def st2_def del: enqueue_links.simps)
  have i3: "crawl_iteration w (st2\<lparr>page_queue := q\<rparr>) C = Break st3"
    using crawl_iteration_got[of w "st2\<lparr>page_queue := q\<rparr>" C sC self_c] m2 getC
    by (simp add: st2_def st3_def)
  have "crawl_loop w st2 = (st3, None)"
    using i3 by (subst crawl_loop.simps) (simp add: st2_def)
  then have "crawl_loop w st1 = (st3, None)"
    using i2 by (subst crawl_loop.simps) (simp add: st1_def)
  then have "crawl_loop w st0 = (st3, None)"
    using i1 by (subst crawl_loop.simps) (simp add: st0_def)
  then have "crawl_body w self A nc = (st3, None)"
    using self_start by (simp add: crawl_body_def st0_def)
  then show ?thesis using different by (simp add: st3_def)
qed

text \<open>
  Witness for claim C4: the small site, where every page is fetched, crawled with a
  budget of three pages and an empty cache.
\<close>

theorem crawl_budget_three_breadth_first_witness:
  "crawled (fst (crawl_body (site_world (html_page ''http://site.test/d'') False)
                   ((site_crawler 3)\<lparr>cache := Some \<lparr>sites = [], refresh = 7\<rparr>\<rparr>)
                   ''http://site.test/'' False))
     = [''http://site.test/'', ''http://site.test/b'', ''http://site.test/c'']
   \<and> pages (fst (crawl_body (site_world (html_page ''http://site.test/d'') False)
                   ((site_crawler 3)\<lparr>cache := Some \<lparr>sites = [], refresh = 7\<rparr>\<rparr>)
                   ''http://site.test/'' False)) = 3
   \<and> failed (fst (crawl_body (site_world (html_page ''http://site.test/d'') False)
                   ((site_crawler 3)\<lparr>cache := Some \<lparr>sites = [], refresh = 7\<rparr>\<rparr>)
                   ''http://site.test/'' False)) = 0
   \<and> snd (crawl_body (site_world (html_page ''http://site.test/d'') False)
                   ((site_crawler 3)\<lparr>cache := Some \<lparr>sites = [], refresh = 7\<rparr>\<rparr>)
                   ''http://site.test/'' False) = None
   \<and> ''http://site.test/d'' \<notin> set (crawled (fst (crawl_body
         (site_world (html_page ''http://site.test/d'') False)
                   ((site_crawler 3)\<lparr>cache := Some \<lparr>sites = [], refresh = 7\<rparr>\<rparr>)
                   ''http://site.test/'' False)))"
proof -
  let ?w = "site_world (html_page ''http://site.test/d'') False"
  let ?obj = "(site_crawler 3)\<lparr>cache := Some \<lparr>sites = [], refresh = 7\<rparr>\<rparr>"
  let ?start = "?obj\<lparr>no_cache := False,
      domain := (if single_domain ?obj then Some (urlparse_netloc ?w ''http://site.test/'') else None)\<rparr>"
  let ?afterA = "snd (crawler_get ?w ?start ''http://site.test/'')"
  let ?afterB = "snd (crawler_get ?w ?afterA ''http://site.test/b'')"
  let ?afterC = "snd (crawler_get ?w ?afterB ''http://site.test/c'')"
  let ?sA = "\<lparr>soup_a_href = [''http://site.test/b'', ''http://site.test/c'']\<rparr>"
  let ?sB = "\<lparr>soup_a_href = [''http://site.test/d'']\<rparr>"
  let ?sC = "\<lparr>soup_a_href = []\<rparr>"
  have h2: "max_pages ?obj = 3" by code_simp
  have "fst (crawler_get ?w ?start ''http://site.test/'') = Inr ?sA" by code_simp
  then have h4: "crawler_get ?w ?start ''http://site.test/'' = (Inr ?sA, ?afterA)"
    by (simp add: prod_eq_iff)
  have h5: "get_links ?w ?afterA ''http://site.test/'' ?sA
              = [''http://site.test/b'', ''http://site.test/c'']"
    by code_simp
  have "fst (crawler_get ?w ?afterA ''http://site.test/b'') = Inr ?sB" by code_simp
  then have h6: "crawler_get ?w ?afterA ''http://site.test/b'' = (Inr ?sB, ?afterB)"
    by (simp add: prod_eq_iff)
  have h7: "get_links ?w ?afterB ''http://site.test/b'' ?sB = [''http://site.test/d'']"
    by code_simp
  have "fst (crawler_get ?w ?afterB ''http://site.test/c'') = Inr ?sC" by code_simp
  then have h8: "crawler_get ?w ?afterB ''http://site.test/c'' = (Inr ?sC, ?afterC)"
    by (simp add: prod_eq_iff)
  have h9: "\<not> url_in_list ''http://site.test/b'' [''http://site.test/'']" by code_simp
  have h10: "\<not> url_in_list ''http://site.test/c'' [''http://site.test/'']" by code_simp
  have h11: "\<not> url_in_list ''http://site.test/c'' [''http://site.test/b'']" by code_simp
  have h12: "''http://site.test/d'' \<notin> {''http://site.test/'', ''http://site.test/b'', ''http://site.test/c''}"
    by simp
  show ?thesis
    by (rule crawl_budget_three_breadth_first[where self = ?obj and nc = False and w = ?w
          and A = "''http://site.test/''" and self_start = ?start,
          OF h2 refl h4 h5 h6 h7 h8 h9 h10 h11 h12])
qed

text \<open>
  Claim C2: a frontier URL whose fetch ends in a transport failure (an SSL error) is
  skipped for that iteration, with neither count changed, and the run continues with
  the next frontier URL; no failure of one URL ends the run. The code does not do this.
  On the small site with an SSL error at page b, \<open>get_html\<close> returns \<^verbatim>\<open>None\<close>,
  the parser is called with it and raises TypeError, which is not an HTMLException:
  the loop is left with page c still queued and \<open>safe_func\<close> turns the exception
  into a \<^verbatim>\<open>None\<close> result. With a parser that accepts \<^verbatim>\<open>None\<close> the run goes on, but
  page b is counted as crawled.
\<close>

theorem crawl_ssl_error_ends_run:
  "crawled (fst (crawl_body (site_world (Raises SSLError) False) (site_crawler 50) ''http://site.test/'' False))
     = [''http://site.test/'']
   \<and> pages (fst (crawl_body (site_world (Raises SSLError) False) (site_crawler 50) ''http://site.test/'' False)) = 1
   \<and> page_queue (fst (crawl_body (site_world (Raises SSLError) False) (site_crawler 50) ''http://site.test/'' False))
     = [''http://site.test/c'']
   \<and> snd (crawl_body (site_world (Raises SSLError) False) (site_crawler 50) ''http://site.test/'' False)
     = Some TypeError
   \<and> crawl (site_world (Raises SSLError) False) (site_crawler 50) ''http://site.test/'' False
     = (Returned None, [(DEBUG, TypeError)])
   \<and> crawled (fst (crawl_body (site_world (Raises SSLError) True) (site_crawler 50) ''http://site.test/'' False))
     = [''http://site.test/'', ''http://site.test/b'', ''http://site.test/c'']
   \<and> pages (fst (crawl_body (site_world (Raises SSLError) True) (site_crawler 50) ''http://site.test/'' False)) = 3"
  by code_simp

text \<open>
  Claim C9: \<^verbatim>\<open>crawl\<close> never passes an exception to its caller; \<open>safe_func\<close> catches
  whatever leaves the loop, logs it at debug level and makes the call return
  \<^verbatim>\<open>None\<close>, so that an unexpected failure ends the whole run silently. In the model:
  the call always returns \<^verbatim>\<open>None\<close>; an exception leaving the body is the one debug
  record; an exception of \<open>get\<close> other than HTMLException ends the loop at once, with
  the rest of the frontier unvisited; a failing cache operation and a failing parser
  are such exceptions.
\<close>

theorem crawl_never_raises:
  "fst (crawl w self start_page nc) = Returned None
   \<and> (snd (crawl_body w self start_page nc) = Some e
        \<longrightarrow> snd (crawl w self start_page nc) = [(DEBUG, e)])
   \<and> (page_queue st = url # rest \<and> crawler_get w (st_self st) url = (Inl e', self') \<and> e' \<noteq> HTMLException
        \<longrightarrow> crawl_loop w st = (st\<lparr>page_queue := rest, st_self := self'\<rparr>, Some e'))
   \<and> (cache self1 = Some c \<and> \<not> no_cache self1 \<and> sqlite_fails w (cache_ops self1)
        \<longrightarrow> fst (crawler_get w self1 url1) = Inl SqliteError)
   \<and> (cache self2 = None \<and> get_html w url2 = Inr markup \<and> BeautifulSoup w markup = Inl e2
        \<longrightarrow> fst (crawler_get w self2 url2) = Inl e2)"
proof (intro conjI impI)
  show "fst (crawl w self start_page nc) = Returned None"
    by (cases "crawl_body w self start_page nc"; cases "snd (crawl_body w self start_page nc)")
       (simp_all add: crawl_def safe_func_def)
next
  assume "snd (crawl_body w self start_page nc) = Some e"
  then show "snd (crawl w self start_page nc) = [(DEBUG, e)]"
    by (cases "crawl_body w self start_page nc") (simp add: crawl_def safe_func_def)
next
  assume a: "page_queue st = url # rest \<and> crawler_get w (st_self st) url = (Inl e', self') \<and> e' \<noteq> HTMLException"
  then have "crawl_iteration w (st\<lparr>page_queue := rest\<rparr>) url = Propagate e' (st\<lparr>page_queue := rest, st_self := self'\<rparr>)"
    by (simp add: crawl_iteration_def)
  with a show "crawl_loop w st = (st\<lparr>page_queue := rest, st_self := self'\<rparr>, Some e')"
    by (subst crawl_loop.simps) simp
next
  assume "cache self1 = Some c \<and> \<not> no_cache self1 \<and> sqlite_fails w (cache_ops self1)"
  then show "fst (crawler_get w self1 url1) = Inl SqliteError"
    by (simp add: crawler_get_def is_cacheable_def get_cached_def)
next
  assume "cache self2 = None \<and> get_html w url2 = Inr markup \<and> BeautifulSoup w markup = Inl e2"
  then show "fst (crawler_get w self2 url2) = Inl e2"
    by (simp add: crawler_get_def get_uncached_def)
qed

text \<open>
  Witness for claim C9: the small site with an SSL error at page b, and the same site
  with a database that fails.
\<close>

theorem crawl_never_raises_witness:
  "crawl (site_world (Raises SSLError) False) (site_crawler 50) ''http://site.test/'' False
     = (Returned None, [(DEBUG, TypeError)])
   \<and> snd (crawl_loop (site_world (Raises SSLError) False)
        \<lparr>pages = 1, failed = 0, crawled = [''http://site.test/''],
         page_queue = [''http://site.test/b'', ''http://site.test/c''],
         st_self = (site_crawler 50)\<lparr>domain := Some ''site.test''\<rparr>\<rparr>) = Some TypeError
   \<and> page_queue (fst (crawl_loop (site_world (Raises SSLError) False)
        \<lparr>pages = 1, failed = 0, crawled = [''http://site.test/''],
         page_queue = [''http://site.test/b'', ''http://site.test/c''],
         st_self = (site_crawler 50)\<lparr>domain := Some ''site.test''\<rparr>\<rparr>)) = [''http://site.test/c'']
   \<and> fst (crawler_get ((site_world (Raises SSLError) False)\<lparr>sqlite_fails := \<lambda>k. True\<rparr>)
        ((site_crawler 50)\<lparr>cache := Some \<lparr>sites = [], refresh = 7\<rparr>\<rparr>) ''http://site.test/'') = Inl SqliteError
   \<and> fst (crawler_get (site_world (Raises SSLError) False) (site_crawler 50) ''http://site.test/b'') = Inl TypeError"
proof -
  let ?w = "site_world (Raises SSLError) False"
  let ?self' = "(site_crawler 50)\<lparr>domain := Some ''site.test''\<rparr>"
  let ?st = "\<lparr>pages = 1, failed = 0, crawled = [''http://site.test/''],
         page_queue = [''http://site.test/b'', ''http://site.test/c''], st_self = ?self'\<rparr>"
  let ?wf = "?w\<lparr>sqlite_fails := \<lambda>k. True\<rparr>"
  let ?sc = "(site_crawler 50)\<lparr>cache := Some \<lparr>sites = [], refresh = 7\<rparr>\<rparr>"
  have h1: "snd (crawl_body ?w (site_crawler 50) ''http://site.test/'' False) = Some TypeError"
    by code_simp
  have h2: "page_queue ?st = ''http://site.test/b'' # [''http://site.test/c'']
      \<and> crawler_get ?w (st_self ?st) ''http://site.test/b'' = (Inl TypeError, ?self') \<and> TypeError \<noteq> HTMLException"
    by code_simp
  have h3: "cache ?sc = Some \<lparr>sites = [], refresh = 7\<rparr> \<and> \<not> no_cache ?sc \<and> sqlite_fails ?wf (cache_ops ?sc)"
    by code_simp
  have h4: "cache (site_crawler 50) = None \<and> get_html ?w ''http://site.test/b'' = Inr None
      \<and> BeautifulSoup ?w None = Inl TypeError"
    by code_simp
  show ?thesis
    using crawl_never_raises[of ?w "site_crawler 50" "''http://site.test/''" False TypeError ?st
        "''http://site.test/b''" "[''http://site.test/c'']" TypeError ?self']
      crawl_never_raises[of ?wf "site_crawler 50" "''http://site.test/''" False TypeError ?st
        "''http://site.test/b''" "[''http://site.test/c'']" TypeError ?self' ?sc "\<lparr>sites = [], refresh = 7\<rparr>" "''http://site.test/''"]
      crawl_never_raises[of ?w "site_crawler 50" "''http://site.test/''" False TypeError ?st
        "''http://site.test/b''" "[''http://site.test/c'']" TypeError ?self' ?sc "\<lparr>sites = [], refresh = 7\<rparr>" "''http://site.test/''"
        "site_crawler 50" "''http://site.test/b''" None TypeError]
      h1 h2 h3 h4
    by (simp add: prod_eq_iff)
qed

section \<open>Properties of write_to_file and download_image\<close>






lemma str_nat_no_slash: "CHR ''/'' \<notin> set (str_nat n)"
proof (induction n rule: str_nat.induct)
  case (1 n)
  have d: "digit_char k \<noteq> CHR ''/''" if "k < 10" for k
  proof -
    have "digit_char k \<in> set ''0123456789''"
      unfolding digit_char_def using that by (intro nth_mem) simp
    then show ?thesis by auto
  qed
  show ?case
  proof (cases "n < 10")
    case True
    then show ?thesis using d[of n] by (subst str_nat.simps) simp
  next
    case False
    then show ?thesis using 1 d[of "n mod 10"] by (subst str_nat.simps) simp
  qed
qed

lemma rsplit1_parts: "rsplit1 sep s = Some (stem, sfx) \<Longrightarrow> s = stem @ [sep] @ sfx \<and> sep \<notin> set sfx"
proof -
  assume a: "rsplit1 sep s = Some (stem, sfx)"
  then have mem: "sep \<in> set s"
    and stem: "stem = rev (drop 1 (dropWhile (\<lambda>c. c \<noteq> sep) (rev s)))"
    and sfx: "sfx = rev (takeWhile (\<lambda>c. c \<noteq> sep) (rev s))"
    by (auto simp: rsplit1_def split: if_splits)
  from mem have "dropWhile (\<lambda>c. c \<noteq> sep) (rev s) \<noteq> []"
    by auto
  then obtain ys where ys: "dropWhile (\<lambda>c. c \<noteq> sep) (rev s) = sep # ys"
    using hd_dropWhile[of "\<lambda>c. c \<noteq> sep" "rev s"]
    by (cases "dropWhile (\<lambda>c. c \<noteq> sep) (rev s)") auto
  have "rev s = takeWhile (\<lambda>c. c \<noteq> sep) (rev s) @ dropWhile (\<lambda>c. c \<noteq> sep) (rev s)"
    by simp
  then have "rev s = rev sfx @ sep # rev stem"
    using ys stem sfx by simp
  then have "rev (rev s) = rev (rev sfx @ sep # rev stem)" by simp
  then have "s = stem @ [sep] @ sfx" by simp
  moreover have "sep \<notin> set sfx"
    using sfx set_takeWhileD[of sep "\<lambda>c. c \<noteq> sep" "rev s"] by auto
  ultimately show ?thesis by simp
qed

lemma dirname_ignores_last_component:
  assumes "CHR ''/'' \<notin> set a" and "CHR ''/'' \<notin> set b"
  shows "dirname (stem @ a) = dirname (stem @ b)"
proof -
  have "dropWhile (\<lambda>c. c \<noteq> CHR ''/'') (rev (stem @ x)) = dropWhile (\<lambda>c. c \<noteq> CHR ''/'') (rev stem)"
    if "CHR ''/'' \<notin> set x" for x
  proof -
    have "dropWhile (\<lambda>c. c \<noteq> CHR ''/'') (rev x @ rev stem) = dropWhile (\<lambda>c. c \<noteq> CHR ''/'') (rev stem)"
      by (rule dropWhile_append2) (use that in auto)
    then show ?thesis by simp
  qed
  with assms show ?thesis by (simp add: dirname_def)
qed

lemma dirname_counter_name:
  assumes "rsplit1 CHR ''.'' file_name = Some (stem, sfx)" and "CHR ''/'' \<notin> set sfx"
  shows "dirname (counter_name stem sfx k) = dirname file_name"
proof -
  from rsplit1_parts[OF assms(1)] have f: "file_name = stem @ (''.'' @ sfx)" by simp
  have c: "counter_name stem sfx k = stem @ (''_'' @ str_nat k @ ''.'' @ sfx)"
    by (simp add: counter_name_def)
  have "CHR ''/'' \<notin> set (''_'' @ str_nat k @ ''.'' @ sfx)"
    using assms(2) str_nat_no_slash[of k] by simp
  moreover have "CHR ''/'' \<notin> set (''.'' @ sfx)"
    using assms(2) by simp
  ultimately show ?thesis
    unfolding f c by (rule dirname_ignores_last_component)
qed

lemma counter_name_not_empty: "counter_name stem sfx k \<noteq> []"
  by (simp add: counter_name_def)



lemma write_loop_result_aux:
  assumes "write_loop isdir oserr sha1 data file_name fs new_name count = Some r"
  shows "(case r of
            Inr fs' \<Rightarrow>
              ((fs' = fs \<and> (\<exists>n old. fs n = Some old \<and> sha1 data = sha1 old))
               \<or> (\<exists>n. fs n = None \<and> fs' = fs(n \<mapsto> data)
                 \<and> (n = new_name \<or> (\<exists>stem sfx j. rsplit1 CHR ''.'' file_name = Some (stem, sfx)
                        \<and> count \<le> j \<and> n = counter_name stem sfx j))))
              \<and> (\<forall>data2. sha1 data2 = sha1 data \<longrightarrow>
                    write_loop isdir oserr sha1 data2 file_name fs' new_name count = Some (Inr fs'))
          | Inl e \<Rightarrow> True)"
proof -
  let ?P = "\<lambda>isdir oserr sha1 data file_name fs new_name count r.
     (case r of
            Inr fs' \<Rightarrow>
              ((fs' = fs \<and> (\<exists>n old. fs n = Some old \<and> sha1 data = sha1 old))
               \<or> (\<exists>n. fs n = None \<and> fs' = fs(n \<mapsto> data)
                 \<and> (n = new_name \<or> (\<exists>stem sfx j. rsplit1 CHR ''.'' file_name = Some (stem, sfx)
                        \<and> count \<le> j \<and> n = counter_name stem sfx j))))
              \<and> (\<forall>data2. sha1 data2 = sha1 data \<longrightarrow>
                    write_loop isdir oserr sha1 data2 file_name fs' new_name count = Some (Inr fs'))
          | Inl e \<Rightarrow> True)"
  have "?P isdir oserr sha1 data file_name fs new_name count r"
  proof (rule write_loop.raw_induct[where P = ?P, OF _ assms], goal_cases)
    case (1 wl isdir oserr sha1 data file_name fs new_name count r)
    show ?case
    proof (cases r)
      case (Inl e)
      then show ?thesis by simp
    next
      case (Inr fs')
      have on: "oserr new_name = None"
        using 1(2) Inr by (cases "oserr new_name") auto
      show ?thesis
      proof (cases "fs new_name")
        case None
        with 1(2) Inr on have w: "fs' = fs(new_name \<mapsto> data)"
          by (auto simp: open_wb_def split: if_splits)
        have "\<forall>data2. sha1 data2 = sha1 data \<longrightarrow>
            write_loop isdir oserr sha1 data2 file_name (fs(new_name \<mapsto> data)) new_name count
              = Some (Inr (fs(new_name \<mapsto> data)))"
          using on by (subst write_loop.simps) simp
        with w None Inr show ?thesis by auto
      next
        case (Some old)
        show ?thesis
        proof (cases "sha1 data = sha1 old")
          case True
          with Some 1(2) Inr on have r: "fs' = fs" by simp
          have "\<forall>data2. sha1 data2 = sha1 data \<longrightarrow>
              write_loop isdir oserr sha1 data2 file_name fs new_name count = Some (Inr fs)"
            using Some True on by (subst write_loop.simps) simp
          with r Some True Inr show ?thesis by auto
        next
          case False
          show ?thesis
          proof (cases "rsplit1 CHR ''.'' file_name")
            case None
            with \<open>fs new_name = Some old\<close> False 1(2) Inr on show ?thesis by auto
          next
            case (Some p)
            obtain stem sfx where p: "p = (stem, sfx)" by (cases p)
            from 1(2) \<open>fs new_name = Some old\<close> False Some p Inr on
            have rec: "wl isdir oserr sha1 data file_name fs (counter_name stem sfx count) (count + 1) = Some (Inr fs')"
              by simp
            from 1(1)[OF rec]
            have shape: "(fs' = fs \<and> (\<exists>n old. fs n = Some old \<and> sha1 data = sha1 old))
                   \<or> (\<exists>n. fs n = None \<and> fs' = fs(n \<mapsto> data)
                   \<and> (n = counter_name stem sfx count \<or> (\<exists>stem' sfx' j. rsplit1 CHR ''.'' file_name = Some (stem', sfx')
                          \<and> count + 1 \<le> j \<and> n = counter_name stem' sfx' j)))"
              and again: "\<forall>data2. sha1 data2 = sha1 data \<longrightarrow>
                      write_loop isdir oserr sha1 data2 file_name fs' (counter_name stem sfx count) (count + 1) = Some (Inr fs')"
              by simp_all
            from shape \<open>fs new_name = Some old\<close> have keep: "fs' new_name = Some old" by auto
            have a: "\<forall>data2. sha1 data2 = sha1 data \<longrightarrow>
                      write_loop isdir oserr sha1 data2 file_name fs' new_name count = Some (Inr fs')"
            proof (intro allI impI)
              fix data2 assume h: "sha1 data2 = sha1 data"
              with again have "write_loop isdir oserr sha1 data2 file_name fs' (counter_name stem sfx count) (count + 1) = Some (Inr fs')"
                by simp
              with keep h False Some p on show "write_loop isdir oserr sha1 data2 file_name fs' new_name count = Some (Inr fs')"
                by (subst write_loop.simps) simp
            qed
            have "(fs' = fs \<and> (\<exists>n old. fs n = Some old \<and> sha1 data = sha1 old))
                   \<or> (\<exists>n. fs n = None \<and> fs' = fs(n \<mapsto> data)
                   \<and> (n = new_name \<or> (\<exists>stem sfx j. rsplit1 CHR ''.'' file_name = Some (stem, sfx)
                          \<and> count \<le> j \<and> n = counter_name stem sfx j)))"
              using shape
            proof (elim disjE exE conjE)
              fix n old assume "fs' = fs" "fs n = Some old" "sha1 data = sha1 old"
              then show ?thesis by blast
            next
              fix n assume n: "fs n = None" "fs' = fs(n \<mapsto> data)" "n = counter_name stem sfx count"
              have "rsplit1 CHR ''.'' file_name = Some (stem, sfx) \<and> count \<le> count \<and> n = counter_name stem sfx count"
                using Some p n by simp
              with n show ?thesis by blast
            next
              fix n stem' sfx' j
              assume n: "fs n = None" "fs' = fs(n \<mapsto> data)" "rsplit1 CHR ''.'' file_name = Some (stem', sfx')"
                "count + 1 \<le> j" "n = counter_name stem' sfx' j"
              then have "rsplit1 CHR ''.'' file_name = Some (stem', sfx') \<and> count \<le> j \<and> n = counter_name stem' sfx' j"
                by simp
              with n show ?thesis by blast
            qed
            with a Inr show ?thesis by simp
          qed
        qed
      qed
    qed
  qed
  then show ?thesis .
qed

lemma write_loop_result:
  assumes "write_loop isdir oserr sha1 data file_name fs new_name count = Some (Inr fs')"
  shows "((fs' = fs \<and> (\<exists>n old. fs n = Some old \<and> sha1 data = sha1 old))
          \<or> (\<exists>n. fs n = None \<and> fs' = fs(n \<mapsto> data)
                 \<and> (n = new_name \<or> (\<exists>stem sfx j. rsplit1 CHR ''.'' file_name = Some (stem, sfx)
                        \<and> count \<le> j \<and> n = counter_name stem sfx j))))
       \<and> (\<forall>data2. sha1 data2 = sha1 data \<longrightarrow>
              write_loop isdir oserr sha1 data2 file_name fs' new_name count = Some (Inr fs'))"
  using write_loop_result_aux[OF assms] by simp

lemma write_to_file_result:
  assumes "write_to_file isdir oserr sha1 data file_name fs = Some (Inr fs')"
  shows "((fs' = fs \<and> (\<exists>n old. fs n = Some old \<and> sha1 data = sha1 old))
          \<or> (\<exists>n. fs n = None \<and> fs' = fs(n \<mapsto> data)))
       \<and> (\<forall>data2. sha1 data2 = sha1 data \<longrightarrow> write_to_file isdir oserr sha1 data2 file_name fs' = Some (Inr fs'))"
  using write_loop_result[OF assms[unfolded write_to_file_def]]
  unfolding write_to_file_def by auto




text \<open>
  Claim C6: writing the same payload to the same destination twice gives exactly one
  file: the second write changes nothing, whatever the first one did, and a
  destination that did not exist, in a directory that exists, holds the payload after
  both writes, with no other file added (\<^verbatim>\<open>open\<close> refusing no name). Writing a payload to a destination whose
  file holds other content (a different digest) adds a second file, named with the
  counter \<open>_0\<close> before the extension when that name is free, and leaves the first file
  untouched; the extension is the part after the last dot of the last path component,
  so that the second file is in the directory of the first.
\<close>

theorem write_to_file_twice_and_collision:
  "(write_to_file isdir oserr sha1 data file_name fs = Some (Inr fs')
      \<longrightarrow> write_to_file isdir oserr sha1 data file_name fs' = Some (Inr fs'))
   \<and> (fs1 file_name = None \<and> file_name \<noteq> [] \<and> \<not> isdir file_name
       \<and> (dirname file_name = [] \<or> isdir (dirname file_name)) \<and> oserr file_name = None
      \<longrightarrow> write_to_file isdir oserr sha1 data file_name fs1 = Some (Inr (fs1(file_name \<mapsto> data)))
        \<and> write_to_file isdir oserr sha1 data file_name (fs1(file_name \<mapsto> data)) = Some (Inr (fs1(file_name \<mapsto> data)))
        \<and> dom (fs1(file_name \<mapsto> data)) = insert file_name (dom fs1))
   \<and> (fs2 file_name = Some old \<and> sha1 data \<noteq> sha1 old
       \<and> rsplit1 CHR ''.'' file_name = Some (stem, sfx) \<and> CHR ''/'' \<notin> set sfx
       \<and> (dirname file_name = [] \<or> isdir (dirname file_name))
       \<and> fs2 (counter_name stem sfx 0) = None \<and> \<not> isdir (counter_name stem sfx 0)
       \<and> oserr file_name = None \<and> oserr (counter_name stem sfx 0) = None
      \<longrightarrow> write_to_file isdir oserr sha1 data file_name fs2 = Some (Inr (fs2(counter_name stem sfx 0 \<mapsto> data)))
        \<and> (fs2(counter_name stem sfx 0 \<mapsto> data)) file_name = Some old
        \<and> dom (fs2(counter_name stem sfx 0 \<mapsto> data)) = insert (counter_name stem sfx 0) (dom fs2))"
proof (intro conjI impI)
  assume "write_to_file isdir oserr sha1 data file_name fs = Some (Inr fs')"
  from write_to_file_result[OF this]
  show "write_to_file isdir oserr sha1 data file_name fs' = Some (Inr fs')" by simp
next
  assume n: "fs1 file_name = None \<and> file_name \<noteq> [] \<and> \<not> isdir file_name
       \<and> (dirname file_name = [] \<or> isdir (dirname file_name)) \<and> oserr file_name = None"
  then show "write_to_file isdir oserr sha1 data file_name fs1 = Some (Inr (fs1(file_name \<mapsto> data)))"
    unfolding write_to_file_def by (subst write_loop.simps) (simp add: open_wb_def)
  from n show "write_to_file isdir oserr sha1 data file_name (fs1(file_name \<mapsto> data)) = Some (Inr (fs1(file_name \<mapsto> data)))"
    unfolding write_to_file_def by (subst write_loop.simps) simp
  show "dom (fs1(file_name \<mapsto> data)) = insert file_name (dom fs1)" by simp
next
  assume a: "fs2 file_name = Some old \<and> sha1 data \<noteq> sha1 old
       \<and> rsplit1 CHR ''.'' file_name = Some (stem, sfx) \<and> CHR ''/'' \<notin> set sfx
       \<and> (dirname file_name = [] \<or> isdir (dirname file_name))
       \<and> fs2 (counter_name stem sfx 0) = None \<and> \<not> isdir (counter_name stem sfx 0)
       \<and> oserr file_name = None \<and> oserr (counter_name stem sfx 0) = None"
  then have d: "dirname (counter_name stem sfx 0) = dirname file_name"
    by (intro dirname_counter_name) simp_all
  have "write_loop isdir oserr sha1 data file_name fs2 (counter_name stem sfx 0) (0 + 1)
          = Some (Inr (fs2(counter_name stem sfx 0 \<mapsto> data)))"
    using a d counter_name_not_empty[of stem sfx 0]
    by (subst write_loop.simps) (simp add: open_wb_def)
  with a show "write_to_file isdir oserr sha1 data file_name fs2 = Some (Inr (fs2(counter_name stem sfx 0 \<mapsto> data)))"
    unfolding write_to_file_def by (subst write_loop.simps) simp
  from a have "counter_name stem sfx 0 \<noteq> file_name" by auto
  with a show "(fs2(counter_name stem sfx 0 \<mapsto> data)) file_name = Some old" by simp
  show "dom (fs2(counter_name stem sfx 0 \<mapsto> data)) = insert (counter_name stem sfx 0) (dom fs2)" by simp
qed

text \<open>
  Witness for claim C6: a picture written twice into the empty directory
  \<^verbatim>\<open>./images\<close>, then another picture written to the same name.
\<close>

theorem write_to_file_twice_and_collision_witness:
  "write_to_file (\<lambda>p. p = ''./images'') (\<lambda>p. None) (\<lambda>b. b) ''PNG-1'' ''./images/logo.png'' Map.empty
     = Some (Inr [''./images/logo.png'' \<mapsto> ''PNG-1''])
   \<and> write_to_file (\<lambda>p. p = ''./images'') (\<lambda>p. None) (\<lambda>b. b) ''PNG-1'' ''./images/logo.png''
       [''./images/logo.png'' \<mapsto> ''PNG-1''] = Some (Inr [''./images/logo.png'' \<mapsto> ''PNG-1''])
   \<and> dom [''./images/logo.png'' \<mapsto> ''PNG-1''] = {''./images/logo.png''}
   \<and> write_to_file (\<lambda>p. p = ''./images'') (\<lambda>p. None) (\<lambda>b. b) ''PNG-2'' ''./images/logo.png''
       [''./images/logo.png'' \<mapsto> ''PNG-1'']
       = Some (Inr [''./images/logo.png'' \<mapsto> ''PNG-1'', ''./images/logo_0.png'' \<mapsto> ''PNG-2''])
   \<and> [''./images/logo.png'' \<mapsto> ''PNG-1'', ''./images/logo_0.png'' \<mapsto> ''PNG-2''] ''./images/logo.png''
       = Some ''PNG-1''"
proof -
  let ?isdir = "\<lambda>p. p = ''./images''"
  have a: "write_to_file ?isdir (\<lambda>p. None) (\<lambda>b. b) ''PNG-1'' ''./images/logo.png'' Map.empty
      = Some (Inr [''./images/logo.png'' \<mapsto> ''PNG-1''])"
    by (simp add: write_to_file_def write_loop.simps open_wb_def dirname_def)
  have b: "Map.empty ''./images/logo.png'' = (None :: bytes option) \<and> ''./images/logo.png'' \<noteq> []
       \<and> \<not> ?isdir ''./images/logo.png''
       \<and> (dirname ''./images/logo.png'' = [] \<or> ?isdir (dirname ''./images/logo.png''))
       \<and> (\<lambda>p. None :: exc option) ''./images/logo.png'' = None"
    by (simp add: dirname_def)
  have n: "counter_name ''./images/logo'' ''png'' 0 = ''./images/logo_0.png''"
    by (simp add: counter_name_def str_nat.simps digit_char_def)
  have c: "[''./images/logo.png'' \<mapsto> ''PNG-1''] ''./images/logo.png'' = Some ''PNG-1''
       \<and> (\<lambda>b. b) ''PNG-2'' \<noteq> (\<lambda>b. b) ''PNG-1''
       \<and> rsplit1 CHR ''.'' ''./images/logo.png'' = Some (''./images/logo'', ''png'')
       \<and> CHR ''/'' \<notin> set ''png''
       \<and> (dirname ''./images/logo.png'' = [] \<or> ?isdir (dirname ''./images/logo.png''))
       \<and> [''./images/logo.png'' \<mapsto> ''PNG-1''] (counter_name ''./images/logo'' ''png'' 0) = None
       \<and> \<not> ?isdir (counter_name ''./images/logo'' ''png'' 0)
       \<and> (\<lambda>p. None :: exc option) ''./images/logo.png'' = None
       \<and> (\<lambda>p. None :: exc option) (counter_name ''./images/logo'' ''png'' 0) = None"
    unfolding n by (simp add: rsplit1_def dirname_def)
  show ?thesis
    using write_to_file_twice_and_collision[of ?isdir "\<lambda>p. None" "\<lambda>b. b" "''PNG-1''" "''./images/logo.png''" Map.empty
        "[''./images/logo.png'' \<mapsto> ''PNG-1'']" Map.empty "[''./images/logo.png'' \<mapsto> ''PNG-1'']" "''PNG-1''"
        "''./images/logo''" "''png''"]
      write_to_file_twice_and_collision[of ?isdir "\<lambda>p. None" "\<lambda>b. b" "''PNG-2''" "''./images/logo.png''" Map.empty
        "[''./images/logo.png'' \<mapsto> ''PNG-2'']" Map.empty "[''./images/logo.png'' \<mapsto> ''PNG-1'']" "''PNG-1''"
        "''./images/logo''" "''png''"]
      a b c n
    by simp
qed

text \<open>
  Claim C3, as stated: stored assets are unique by content hash, so two downloads whose
  payloads hash identically never leave two files of that content. They do when the
  URLs end in different file names: the same picture fetched as \<^verbatim>\<open>a.png\<close> and as
  \<^verbatim>\<open>b.png\<close> is stored twice, since \<open>write_to_file\<close> reads only the files at the
  destination name and its counter names.
\<close>

theorem download_same_content_two_files_counterexample:
  "download_image image_world (\<lambda>b. b) ''./images'' ''http://site.test/a.png'' Map.empty
     = Some (None, [''./images/a.png'' \<mapsto> ''PNG-1''])
   \<and> download_image image_world (\<lambda>b. b) ''./images'' ''http://site.test/b.png'' [''./images/a.png'' \<mapsto> ''PNG-1'']
     = Some (None, [''./images/a.png'' \<mapsto> ''PNG-1'', ''./images/b.png'' \<mapsto> ''PNG-1''])"
  by (simp add: download_image_def image_world_def image_response_def image_file_name_def site_path_def
        os_path_join_def endswith_any_def endswith_def suffix_list_def write_to_file_def write_loop.simps suffix_def
        open_wb_def dirname_def)

text \<open>
  Claim C3, amended: stored assets are deduplicated by content hash per destination
  name: for every pair of asset downloads, also from two different URLs, that map to
  the same destination file name and whose payloads hash identically, the second
  download, coming after the first was fetched with status 200 and returned, leaves
  the store as it is, so no second file of that content appears. Downloads with
  different destination names are not compared.
\<close>

theorem download_same_name_same_hash_no_second_file:
  assumes first: "download_image w sha1 path_images url1 fs = Some (None, fs1)"
    and resp1: "sess_get w url1 = Resp i1" and ok1: "resp_status_code i1 = 200"
    and resp2: "sess_get w url2 = Resp i2"
    and same_name: "image_file_name w path_images url2 = image_file_name w path_images url1"
    and same_hash: "sha1 (resp_content i2) = sha1 (resp_content i1)"
  shows "download_image w sha1 path_images url2 fs1 = Some (None, fs1)"
proof (cases "endswith_any (image_file_name w path_images url1) suffix_list")
  case False
  with same_name resp2 show ?thesis by (simp add: download_image_def)
next
  case True
  with first resp1 ok1 have "write_to_file (os_path_isdir w) (os_open_error w) sha1 (resp_content i1) (image_file_name w path_images url1) fs = Some (Inr fs1)"
    by (auto simp: download_image_def split: option.splits sum.splits)
  from write_to_file_result[OF this] same_hash
  have "write_to_file (os_path_isdir w) (os_open_error w) sha1 (resp_content i2) (image_file_name w path_images url1) fs1 = Some (Inr fs1)"
    by simp
  with True same_name resp2 show ?thesis by (simp add: download_image_def)
qed

text \<open>
  Witness for the amended claim C3: the same picture from two hosts, under the same file
  name.
\<close>

theorem download_same_name_same_hash_no_second_file_witness:
  "download_image image_world (\<lambda>b. b) ''./images'' ''http://cdn.test/img/a.png'' [''./images/a.png'' \<mapsto> ''PNG-1'']
     = Some (None, [''./images/a.png'' \<mapsto> ''PNG-1''])"
proof -
  have h1: "download_image image_world (\<lambda>b. b) ''./images'' ''http://site.test/a.png'' Map.empty
     = Some (None, [''./images/a.png'' \<mapsto> ''PNG-1''])"
    by (simp add: download_image_def image_world_def image_response_def image_file_name_def site_path_def
        os_path_join_def endswith_any_def endswith_def suffix_list_def write_to_file_def write_loop.simps suffix_def
        open_wb_def dirname_def)
  have h2: "sess_get image_world ''http://site.test/a.png''
      = Resp \<lparr>resp_status_code = 200, resp_content_type = Some ''image/png'', resp_text = [], resp_content = ''PNG-1''\<rparr>"
    by (simp add: image_world_def image_response_def)
  have h3: "resp_status_code \<lparr>resp_status_code = 200, resp_content_type = Some ''image/png'', resp_text = [], resp_content = ''PNG-1''\<rparr> = 200"
    by simp
  have h4: "sess_get image_world ''http://cdn.test/img/a.png''
      = Resp \<lparr>resp_status_code = 200, resp_content_type = Some ''image/png'', resp_text = [], resp_content = ''PNG-1''\<rparr>"
    by (simp add: image_world_def image_response_def)
  have h5: "image_file_name image_world ''./images'' ''http://cdn.test/img/a.png''
      = image_file_name image_world ''./images'' ''http://site.test/a.png''"
    by (simp add: image_world_def image_file_name_def site_path_def)
  show ?thesis
    by (rule download_same_name_same_hash_no_second_file[OF h1 h2 h3 h4 h5]) simp
qed

text \<open>
  Claim C10: \<open>download_image\<close> writes a file only when the file name built from the
  last path segment of the URL ends with one of \<^verbatim>\<open>.jpg .gif .png .tif .svg .ico\<close> and the
  response status is 200. For every asset URL failing either condition the call ends
  with the file system unchanged; and whenever the file system changed, both
  conditions held.
\<close>

theorem download_image_writes_only_suffix_and_ok:
  "(\<not> (endswith_any (image_file_name w path_images img_url) suffix_list
        \<and> (\<exists>i. sess_get w img_url = Resp i \<and> resp_status_code i = 200))
      \<longrightarrow> (\<exists>e. download_image w sha1 path_images img_url fs = Some (e, fs)))
   \<and> (download_image w sha1 path_images img_url fs = Some (e', fs') \<and> fs' \<noteq> fs
      \<longrightarrow> endswith_any (image_file_name w path_images img_url) suffix_list
          \<and> (\<exists>i. sess_get w img_url = Resp i \<and> resp_status_code i = 200))"
  by (cases "sess_get w img_url") (auto simp: download_image_def split: option.splits sum.splits)

text \<open>
  Witness for claim C10: a picture that is not found, a text file, and a picture that is
  written.
\<close>

theorem download_image_writes_only_suffix_and_ok_witness:
  "(\<exists>e. download_image image_world (\<lambda>b. b) ''./images'' ''http://site.test/gone.png''
           [''./images/a.png'' \<mapsto> ''PNG-1''] = Some (e, [''./images/a.png'' \<mapsto> ''PNG-1'']))
   \<and> (\<exists>e. download_image image_world (\<lambda>b. b) ''./images'' ''http://site.test/readme.txt''
           [''./images/a.png'' \<mapsto> ''PNG-1''] = Some (e, [''./images/a.png'' \<mapsto> ''PNG-1'']))
   \<and> endswith_any (image_file_name image_world ''./images'' ''http://site.test/b.png'') suffix_list
   \<and> (\<exists>i. sess_get image_world ''http://site.test/b.png'' = Resp i \<and> resp_status_code i = 200)"
proof -
  let ?fs = "[''./images/a.png'' \<mapsto> ''PNG-1'']"
  have gone: "\<not> (endswith_any (image_file_name image_world ''./images'' ''http://site.test/gone.png'') suffix_list
        \<and> (\<exists>i. sess_get image_world ''http://site.test/gone.png'' = Resp i \<and> resp_status_code i = 200))"
    by (simp add: image_world_def image_response_def)
  have readme: "\<not> (endswith_any (image_file_name image_world ''./images'' ''http://site.test/readme.txt'') suffix_list
        \<and> (\<exists>i. sess_get image_world ''http://site.test/readme.txt'' = Resp i \<and> resp_status_code i = 200))"
    by (simp add: image_world_def image_file_name_def site_path_def os_path_join_def
          endswith_any_def endswith_def suffix_list_def suffix_def)
  have b: "download_image image_world (\<lambda>b. b) ''./images'' ''http://site.test/b.png'' ?fs
     = Some (None, [''./images/a.png'' \<mapsto> ''PNG-1'', ''./images/b.png'' \<mapsto> ''PNG-1''])
     \<and> [''./images/a.png'' \<mapsto> ''PNG-1'', ''./images/b.png'' \<mapsto> ''PNG-1''] \<noteq> ?fs"
  proof
    show "download_image image_world (\<lambda>b. b) ''./images'' ''http://site.test/b.png'' ?fs
     = Some (None, [''./images/a.png'' \<mapsto> ''PNG-1'', ''./images/b.png'' \<mapsto> ''PNG-1''])"
      by (simp add: download_image_def image_world_def image_response_def image_file_name_def site_path_def
        os_path_join_def endswith_any_def endswith_def suffix_list_def write_to_file_def write_loop.simps suffix_def
        open_wb_def dirname_def)
    have "[''./images/a.png'' \<mapsto> ''PNG-1'', ''./images/b.png'' \<mapsto> ''PNG-1''] ''./images/b.png'' \<noteq> ?fs ''./images/b.png''"
      by simp
    then show "[''./images/a.png'' \<mapsto> ''PNG-1'', ''./images/b.png'' \<mapsto> ''PNG-1''] \<noteq> ?fs"
      by metis
  qed
  have g: "\<exists>e. download_image image_world (\<lambda>b. b) ''./images'' ''http://site.test/gone.png'' ?fs = Some (e, ?fs)"
    using download_image_writes_only_suffix_and_ok[of image_world "''./images''" "''http://site.test/gone.png''" "\<lambda>b. b" ?fs None ?fs]
      gone by blast
  have r: "\<exists>e. download_image image_world (\<lambda>b. b) ''./images'' ''http://site.test/readme.txt'' ?fs = Some (e, ?fs)"
    using download_image_writes_only_suffix_and_ok[of image_world "''./images''" "''http://site.test/readme.txt''" "\<lambda>b. b" ?fs None ?fs]
      readme by blast
  have w: "endswith_any (image_file_name image_world ''./images'' ''http://site.test/b.png'') suffix_list
   \<and> (\<exists>i. sess_get image_world ''http://site.test/b.png'' = Resp i \<and> resp_status_code i = 200)"
    using download_image_writes_only_suffix_and_ok[of image_world "''./images''" "''http://site.test/b.png''" "\<lambda>b. b" ?fs None
         "[''./images/a.png'' \<mapsto> ''PNG-1'', ''./images/b.png'' \<mapsto> ''PNG-1'']"]
      b by blast
  from g r w show ?thesis by blast
qed

section \<open>Properties of the shop crawler\<close>









end
